theory Spec2Isabelle
  imports Complex_Main
begin

section \<open>Python values and exceptions\<close>

text \<open>
  The exceptions that the modelled code can raise. A function that may raise returns
  \<open>error + 'a\<close>, with \<open>Inl\<close> for the exception.
\<close>

datatype error =
    TypeError
  | ValueError
  | ZeroDivisionError
  | OverflowError
  | IndexError
  | AttributeError
  | EOFError
  | IOError
  | InvalidOperation
  | DivisionByZero

definition bind_result :: "error + 'a \<Rightarrow> ('a \<Rightarrow> error + 'b) \<Rightarrow> error + 'b" where
  "bind_result r f = (case r of Inl e \<Rightarrow> Inl e | Inr x \<Rightarrow> f x)"

subsection \<open>Integers held in a float\<close>

text \<open>
  \<open>utils.py\<close> starts with \<^verbatim>\<open>from __future__ import division\<close>, so \<^verbatim>\<open>/\<close> is true
  division and its result is a float, also when the quotient of two ints is a whole number.
  A double holds a whole number exactly up to 53 bits; a longer one is rounded to 53
  significant bits, ties to the even mantissa, and beyond the range of a double the division
  raises OverflowError. \<open>float_of_int q\<close> is the whole number held by the float that
  results from a division with exact quotient \<open>q\<close>.
\<close>

function bit_length :: "int \<Rightarrow> nat" where
  "bit_length n = (if n \<le> 0 then 0 else Suc (bit_length (n div 2)))"
  by pat_completeness auto
termination
  by (relation "measure nat") auto

declare bit_length.simps [simp del]

definition round_53 :: "int \<Rightarrow> int" where
  "round_53 q =
     (let a = \<bar>q\<bar>; e = bit_length a - 53 in
      if e = 0 then q
      else
        let m = a div 2 ^ e; r = a mod 2 ^ e; h = 2 ^ (e - 1);
            m' = (if h < r \<or> (r = h \<and> odd m) then m + 1 else m)
        in sgn q * (m' * 2 ^ e))"

definition float_of_int :: "int \<Rightarrow> error + int" where
  "float_of_int q =
     (let r = round_53 q in if 2 ^ 1024 \<le> \<bar>r\<bar> then Inl OverflowError else Inr r)"

subsection \<open>Formatting integers\<close>

text \<open>\<^verbatim>\<open>'%d' % n\<close>: the decimal digits of \<open>n\<close>, after a minus sign when it is negative.\<close>

function digits_of :: "int \<Rightarrow> string" where
  "digits_of n =
     (if n < 10 then [''0123456789'' ! nat n]
      else digits_of (n div 10) @ [''0123456789'' ! nat (n mod 10)])"
  by pat_completeness auto
termination
  by (relation "measure nat") auto

declare digits_of.simps [simp del]

definition str_d :: "int \<Rightarrow> string" where
  "str_d i = (if i < 0 then ''-'' @ digits_of (- i) else digits_of i)"

section \<open>My\_Fraction (utils.py)\<close>

text \<open>
  A number as \<open>sign * (whole + numerator / denominator)\<close>. The constructor makes
  \<open>numerator\<close> an int; \<open>denominator\<close> is \<open>None\<close> when unset. After \<open>reduce\<close>
  Python holds numerator and denominator as floats of whole value (the result of \<^verbatim>\<open>/=\<close>);
  the record holds that whole value, which is what \<^verbatim>\<open>int()\<close>, \<^verbatim>\<open>%d\<close>, \<^verbatim>\<open>==\<close> and
  \<^verbatim>\<open>in\<close> read from such a float.
\<close>

record My_Fraction =
  sign :: int
  whole :: int
  numerator :: int
  denominator :: "int option"
  english_separator :: string

definition My_Fraction_init :: "string \<Rightarrow> int \<Rightarrow> int \<Rightarrow> int option \<Rightarrow> My_Fraction" where
  "My_Fraction_init sep w n d =
     \<lparr>sign = (if w < 0 \<or> n < 0 then - 1 else 1),
      whole = \<bar>w\<bar>,
      numerator = \<bar>n\<bar>,
      denominator = d,
      english_separator = sep\<rparr>"

text \<open>
  \<open>reduce\<close> changes the object in place; the model returns the changed object. The
  floor division raises ZeroDivisionError for a zero denominator, before anything is
  assigned.
\<close>

definition reduce :: "My_Fraction \<Rightarrow> error + My_Fraction" where
  "reduce f =
     (case denominator f of
        None \<Rightarrow> Inr f
      | Some d \<Rightarrow>
          if numerator f = 0 then Inr f
          else if d = 0 then Inl ZeroDivisionError
          else
            let dwhole = numerator f div d;
                w = whole f + dwhole;
                n = numerator f - dwhole * d;
                g = gcd n d
            in bind_result (float_of_int (n div g)) (\<lambda>n'.
               bind_result (float_of_int (d div g)) (\<lambda>d'.
                 Inr (f\<lparr>whole := w, numerator := n', denominator := Some d'\<rparr>))))"

text \<open>
  \<open>to_string\<close> reduces the object first (its state afterwards is the one \<open>reduce\<close>
  returns) and gives the string. \<^verbatim>\<open>'%d/%d'\<close> with an unset denominator is a TypeError.
\<close>

definition to_string :: "My_Fraction \<Rightarrow> error + string" where
  "to_string f0 =
     bind_result (reduce f0) (\<lambda>f.
       let s = '''';
           s = (if sign f < 0 then ''-'' else s);
           s = (if 0 < whole f
                then str_d (whole f) @
                     (if numerator f \<noteq> 0 then My_Fraction.english_separator f else '''')
                else s)
       in if numerator f \<noteq> 0 then
            (case denominator f of
               None \<Rightarrow> Inl TypeError
             | Some d \<Rightarrow> Inr (s @ str_d (numerator f) @ ''/'' @ str_d d))
          else if whole f = 0 then Inr ''0''
          else Inr s)"

section \<open>Margins (utils.py)\<close>

text \<open>
  The constructor's optional arguments are \<open>None\<close> when the call leaves them out (or
  passes \<^verbatim>\<open>None\<close>). Both branches of the test on \<^verbatim>\<open>sep\<close> assign the default.
\<close>

record Margins =
  sep :: int
  left :: int
  right :: int
  bottom :: int
  top' :: int

definition Margins_init ::
  "int \<Rightarrow> int option \<Rightarrow> int option \<Rightarrow> int option \<Rightarrow> int option \<Rightarrow> int option \<Rightarrow> Margins" where
  "Margins_init default' sep_arg left_arg right_arg bottom_arg top_arg =
     \<lparr>sep = (case sep_arg of None \<Rightarrow> default' | Some _ \<Rightarrow> default'),
      left = (case left_arg of None \<Rightarrow> default' | Some l \<Rightarrow> l),
      right = (case right_arg of None \<Rightarrow> default' | Some r \<Rightarrow> r),
      bottom = (case bottom_arg of None \<Rightarrow> default' | Some b \<Rightarrow> b),
      top' = (case top_arg of None \<Rightarrow> default' | Some t \<Rightarrow> t)\<rparr>"

datatype number = PyInt int | PyFloat rat

datatype pyval = PNone | PBool bool | PNum number | PStr string | PList "pyval list"

fun truthy :: "pyval \<Rightarrow> bool" where
  "truthy PNone = False"
| "truthy (PBool b) = b"
| "truthy (PNum (PyInt i)) = (i \<noteq> 0)"
| "truthy (PNum (PyFloat r)) = (r \<noteq> 0)"
| "truthy (PStr s) = (s \<noteq> [])"
| "truthy (PList vs) = (vs \<noteq> [])"

datatype decimal = Decimal int int

record 'a Units =
  english_separator :: 'a
  metric :: bool
  transl :: "(string \<Rightarrow> string) option"
  num_increments :: int
  increments_per_inch :: number

definition mm_per_inch :: rat where
  "mm_per_inch = 127 / 5"

definition Units_init ::
  "'a option \<Rightarrow> bool \<Rightarrow> int option \<Rightarrow> (string \<Rightarrow> string) option
     \<Rightarrow> error + ('a Units \<times> decimal)" where
  "Units_init english_separator_arg metric_arg num_increments_arg transl_arg =
     (case english_separator_arg of
        None \<Rightarrow> Inl TypeError
      | Some separator \<Rightarrow>
          let n = (case num_increments_arg of
                     None \<Rightarrow> (if metric_arg then 1 else 32)
                   | Some k \<Rightarrow> k)
          in if metric_arg then
               Inr (\<lparr>english_separator = separator, metric = metric_arg, transl = transl_arg,
                      num_increments = n,
                      increments_per_inch = PyFloat (mm_per_inch * of_int n)\<rparr>,
                    Decimal 1 (- 2))
             else
               Inr (\<lparr>english_separator = separator, metric = metric_arg, transl = transl_arg,
                      num_increments = n,
                      increments_per_inch = PyInt n\<rparr>,
                    Decimal 1 (- 3)))"

record 'a Router_Bit =
  units :: "'a Units"
  width :: pyval
  depth :: pyval
  angle :: pyval

record Cut =
  passes :: "int list"

record 'a Board =
  units :: "'a Units"
  width :: int
  active :: bool
  top_cuts :: "Cut list"
  bottom_cuts :: "Cut list"

record Spacing =
  description :: string
  cuts :: pyval
  params :: pyval

record Config =
  debug :: bool

definition VERSION :: string where
  "VERSION = ''0.9.4''"

definition serialize ::
  "'a Router_Bit \<Rightarrow> 'b Board list \<Rightarrow> Spacing \<Rightarrow> Config \<Rightarrow> error + pyval list" where
  "serialize bit' boards sp config =
     (let out = [PStr VERSION];
          units = Router_Bit.units bit';
          out = out @ [PBool (metric units)];
          out = (if \<not> metric units then out @ [PNum (increments_per_inch units)] else out);
          out = out @ [Router_Bit.width bit', depth bit', angle bit'];
          nb = int (length boards);
          out = out @ [PNum (PyInt nb)]
      in case boards of
           [] \<Rightarrow> Inl IndexError
         | b0 # _ \<Rightarrow>
             let out = out @ [PNum (PyInt (Board.width b0))];
                 sp_type = take 4 (description sp);
                 out = out @ [PStr sp_type]
             in if sp_type = ''Edit'' then Inr (out @ [cuts sp])
                else Inr (out @ [params sp]))"

record ('bit, 'board, 'sp) router_spacing =
  Router_Bit :: "pyval Units \<Rightarrow> pyval \<Rightarrow> pyval \<Rightarrow> pyval \<Rightarrow> 'bit"
  Board :: "'bit \<Rightarrow> pyval \<Rightarrow> 'board"
  Edit_Spaced :: "'bit \<Rightarrow> 'board list \<Rightarrow> Config \<Rightarrow> 'sp"
  Equally_Spaced :: "'bit \<Rightarrow> 'board list \<Rightarrow> Config \<Rightarrow> 'sp"
  Variable_Spaced :: "'bit \<Rightarrow> 'board list \<Rightarrow> Config \<Rightarrow> 'sp"
  set_params :: "'sp \<Rightarrow> pyval \<Rightarrow> 'sp"
  set_cuts :: "'sp \<Rightarrow> pyval option \<Rightarrow> 'sp"

fun load :: "pyval list \<Rightarrow> error + (pyval \<times> pyval list)" where
  "load [] = Inl EOFError"
| "load (v # rest) = Inr (v, rest)"

fun range_count :: "pyval \<Rightarrow> error + nat" where
  "range_count (PNum (PyInt n)) = Inr (nat n)"
| "range_count (PBool b) = Inr (if b then 1 else 0)"
| "range_count _ = Inl TypeError"

definition unserialize ::
  "('bit, 'board, 'sp) router_spacing \<Rightarrow> pyval list \<Rightarrow> Config
     \<Rightarrow> error + (('bit \<times> 'board list \<times> 'sp \<times> pyval) \<times> decimal)" where
  "unserialize ext s config =
     bind_result (load s) (\<lambda>(version, s).
     bind_result (load s) (\<lambda>(metric, s).
     bind_result
       (if truthy metric then
          bind_result (Units_init None True None None) (\<lambda>(units, quant).
            Inr (units, quant, s))
        else
          bind_result (load s) (\<lambda>(ipi, s).
          bind_result (Units_init (Some ipi) False None None) (\<lambda>(units, quant).
            Inr (units, quant, s))))
       (\<lambda>(units, quant, s).
     bind_result (load s) (\<lambda>(width, s).
     bind_result (load s) (\<lambda>(depth, s).
     bind_result (load s) (\<lambda>(angle, s).
     let bit' = Router_Bit ext units width depth angle in
     bind_result (load s) (\<lambda>(nb, s).
     bind_result (load s) (\<lambda>(width, s).
     bind_result (range_count nb) (\<lambda>n.
     let boards = replicate n (Board ext bit' width) in
     bind_result (load s) (\<lambda>(sp_type, s).
       if sp_type = PStr ''Edit'' then
         bind_result (load s) (\<lambda>(cuts, s).
           let sp = Edit_Spaced ext bit' boards config;
               sp = set_cuts ext sp (Some cuts)
           in Inr ((bit', boards, sp, sp_type), quant))
       else
         let sp = (if sp_type = PStr ''Equa'' then Equally_Spaced ext bit' boards config
                   else Variable_Spaced ext bit' boards config)
         in bind_result (load s) (\<lambda>(params, s).
              let sp = set_params ext sp params;
                  sp = set_cuts ext sp None
              in Inr ((bit', boards, sp, sp_type), quant))))))))))))"

subsection \<open>Strings\<close>

text \<open>
  The string methods that \<open>set_from_string\<close> calls, on ASCII strings. Whitespace is what
  \<^verbatim>\<open>str.split()\<close>, \<^verbatim>\<open>str.strip()\<close> and \<^verbatim>\<open>int()\<close> skip: the characters 9 to 13,
  28 to 31 and the space.
\<close>

definition is_space :: "char \<Rightarrow> bool" where
  "is_space c = (let k = of_char c :: nat in (9 \<le> k \<and> k \<le> 13) \<or> (28 \<le> k \<and> k \<le> 32))"

definition is_digit :: "char \<Rightarrow> bool" where
  "is_digit c = (let k = of_char c :: nat in 48 \<le> k \<and> k \<le> 57)"

definition digit_val :: "char \<Rightarrow> int" where
  "digit_val c = int (of_char c) - 48"

text \<open>\<^verbatim>\<open>s.find(c)\<close> for a one-character \<open>c\<close>: the first index, or -1.\<close>

fun str_find :: "char \<Rightarrow> string \<Rightarrow> int" where
  "str_find c [] = - 1"
| "str_find c (x # xs) =
     (if x = c then 0 else (let r = str_find c xs in if r = - 1 then - 1 else r + 1))"

text \<open>\<^verbatim>\<open>s.replace(old, new, 1)\<close>: the first occurrence only; an empty \<open>old\<close> matches at once.\<close>

fun replace1 :: "string \<Rightarrow> string \<Rightarrow> string \<Rightarrow> string" where
  "replace1 old new [] = (if old = [] then new else [])"
| "replace1 old new (x # xs) =
     (if take (length old) (x # xs) = old then new @ drop (length old) (x # xs)
      else x # replace1 old new xs)"

text \<open>\<^verbatim>\<open>s.split(c)\<close>: the pieces between the occurrences of \<open>c\<close>, empty ones kept.\<close>

fun split_on :: "char \<Rightarrow> string \<Rightarrow> string list" where
  "split_on c [] = [[]]"
| "split_on c (x # xs) =
     (let r = split_on c xs in if x = c then [] # r else (x # hd r) # tl r)"

text \<open>\<^verbatim>\<open>s.split(None)\<close>: the words between runs of whitespace; \<open>w\<close> is the word so far.\<close>

fun split_ws_from :: "string \<Rightarrow> string \<Rightarrow> string list" where
  "split_ws_from w [] = (if w = [] then [] else [w])"
| "split_ws_from w (x # xs) =
     (if is_space x then (if w = [] then split_ws_from [] xs else w # split_ws_from [] xs)
      else split_ws_from (w @ [x]) xs)"

definition split_ws :: "string \<Rightarrow> string list" where
  "split_ws s = split_ws_from [] s"

definition strip :: "string \<Rightarrow> string" where
  "strip s = rev (dropWhile is_space (rev (dropWhile is_space s)))"

text \<open>
  \<^verbatim>\<open>int(s)\<close> for a string: whitespace around it is skipped, a sign may come first, then
  digits, where single underscores may stand between digits. Anything else is a ValueError.
\<close>

fun digits_val :: "int \<Rightarrow> string \<Rightarrow> int option" where
  "digits_val acc [] = Some acc"
| "digits_val acc [c] = (if is_digit c then Some (10 * acc + digit_val c) else None)"
| "digits_val acc (c # d # ds) =
     (if is_digit c then digits_val (10 * acc + digit_val c) (d # ds)
      else if c = CHR ''_'' \<and> is_digit d then digits_val (10 * acc + digit_val d) ds
      else None)"

text \<open>The number that a run of digits stands for, after the digits read so far.\<close>

definition digits_value :: "int \<Rightarrow> string \<Rightarrow> int" where
  "digits_value acc ds = foldl (\<lambda>a c. 10 * a + digit_val c) acc ds"

fun unsigned_val :: "string \<Rightarrow> int option" where
  "unsigned_val [] = None"
| "unsigned_val (c # cs) = (if is_digit c then digits_val (digit_val c) cs else None)"

definition int_of_str :: "string \<Rightarrow> error + int" where
  "int_of_str s =
     (case strip s of
        [] \<Rightarrow> Inl ValueError
      | c # cs \<Rightarrow>
          (case (if c = CHR ''-'' then map_option uminus (unsigned_val cs)
                 else if c = CHR ''+'' then unsigned_val cs
                 else unsigned_val (c # cs)) of
             None \<Rightarrow> Inl ValueError
           | Some i \<Rightarrow> Inr i))"

text \<open>
  \<open>set_from_string\<close> (utils.py). The model returns the object as the call leaves it when
  it returns; an exception leaves it partly assigned, which no caller in these sources
  looks at. \<^verbatim>\<open>int(math.pow(10, len(rest)))\<close> goes through a float.
\<close>

definition set_from_string :: "My_Fraction \<Rightarrow> string \<Rightarrow> error + My_Fraction" where
  "set_from_string f0 s0 =
     (let f = f0\<lparr>whole := 0, numerator := 0, denominator := Some 1\<rparr>;
          dotloc = str_find CHR ''.'' s0
      in if dotloc = - 1 then
           let s = (if My_Fraction.english_separator f \<noteq> '' ''
                    then replace1 (My_Fraction.english_separator f) '' '' s0 else s0);
               sp = split_on CHR ''/'' s
           in if length sp = 2 then
                let whole_num = split_ws (sp ! 0) in
                bind_result
                  (if length whole_num = 1 then
                     bind_result (int_of_str (whole_num ! 0)) (\<lambda>n. Inr (f\<lparr>numerator := n\<rparr>))
                   else if length whole_num = 2 then
                     bind_result (int_of_str (whole_num ! 0)) (\<lambda>w.
                     bind_result (int_of_str (whole_num ! 1)) (\<lambda>n.
                       Inr (f\<lparr>whole := w, numerator := n\<rparr>)))
                   else Inl ValueError)
                  (\<lambda>f. let denom = split_ws (sp ! 1) in
                        if length denom = 1 then
                          bind_result (int_of_str (denom ! 0)) (\<lambda>d.
                            Inr (f\<lparr>denominator := Some d\<rparr>))
                        else Inl ValueError)
              else if length sp = 1 then
                bind_result (int_of_str (sp ! 0)) (\<lambda>w. Inr (f\<lparr>whole := w\<rparr>))
              else Inl ValueError
         else
           let w_str = strip (take (nat dotloc) s0) in
           bind_result
             (if w_str \<noteq> [] then
                bind_result (int_of_str w_str) (\<lambda>w. Inr (f\<lparr>whole := w\<rparr>))
              else Inr f)
             (\<lambda>f. let rest = strip (drop (nat dotloc + 1) s0) in
                   if rest \<noteq> [] then
                     bind_result (int_of_str rest) (\<lambda>n.
                     bind_result (float_of_int (10 ^ length rest)) (\<lambda>d.
                       reduce (f\<lparr>numerator := n, denominator := Some d\<rparr>)))
                   else Inr f))"

subsection \<open>Numbers and their formats\<close>

text \<open>
  A Python number is an int or a float. A float is modelled by the rational number it
  stands for: the sums, products and quotients below are exact, where a double rounds to
  53 bits. The two agree wherever the values are whole numbers or binary fractions that fit
  a double, which is the case for the fractions of an inch that the claims are about.
\<close>

definition num_val :: "number \<Rightarrow> rat" where
  "num_val x = (case x of PyInt i \<Rightarrow> of_int i | PyFloat r \<Rightarrow> r)"

definition num_times :: "number \<Rightarrow> int \<Rightarrow> number" where
  "num_times x k = (case x of PyInt i \<Rightarrow> PyInt (i * k) | PyFloat r \<Rightarrow> PyFloat (r * of_int k))"

text \<open>\<^verbatim>\<open>int(x)\<close> truncates towards zero.\<close>

definition trunc :: "rat \<Rightarrow> int" where
  "trunc r = (if 0 \<le> r then \<lfloor>r\<rfloor> else - \<lfloor>- r\<rfloor>)"

definition int_of_num :: "number \<Rightarrow> int" where
  "int_of_num x = (case x of PyInt i \<Rightarrow> i | PyFloat r \<Rightarrow> trunc r)"

text \<open>Rounding to the nearest whole number, a tie to the even one (Python 3's \<^verbatim>\<open>round\<close>).\<close>

definition round_half_even :: "rat \<Rightarrow> int" where
  "round_half_even r =
     (let f = \<lfloor>r\<rfloor>; d = r - of_int f in
      if d < 1 / 2 then f
      else if 1 / 2 < d then f + 1
      else if even f then f else f + 1)"

definition my_round :: "number \<Rightarrow> int" where
  "my_round f = (case f of PyInt i \<Rightarrow> i | PyFloat r \<Rightarrow> round_half_even r)"

definition pow10 :: "int \<Rightarrow> rat" where
  "pow10 e = (if 0 \<le> e then 10 ^ nat e else 1 / 10 ^ nat (- e))"

function ndigits :: "int \<Rightarrow> nat" where
  "ndigits n = (if n < 10 then 1 else Suc (ndigits (n div 10)))"
  by pat_completeness auto
termination
  by (relation "measure nat") auto

declare ndigits.simps [simp del]

text \<open>The decimal exponent of a positive rational: \<open>10^e \<le> x < 10^(e + 1)\<close>.\<close>

definition dec_exp :: "rat \<Rightarrow> int" where
  "dec_exp x =
     (let pq = quotient_of \<bar>x\<bar>;
          k = int (ndigits (fst pq)) - int (ndigits (snd pq))
      in if pow10 k \<le> \<bar>x\<bar> then k else k - 1)"

text \<open>Digits after the point: \<open>n\<close> of them, zeros first; and the same without trailing zeros.\<close>

definition zero_pad :: "nat \<Rightarrow> string \<Rightarrow> string" where
  "zero_pad n s = replicate (n - length s) CHR ''0'' @ s"

definition strip_zeros :: "string \<Rightarrow> string" where
  "strip_zeros s = rev (dropWhile (\<lambda>c. c = CHR ''0'') (rev s))"

text \<open>\<^verbatim>\<open>'%.3f' % x\<close>: three digits after the point, the last one rounded.\<close>

definition fmt_3f :: "rat \<Rightarrow> string" where
  "fmt_3f x =
     (let c = round_half_even (\<bar>x\<bar> * 1000) in
      (if x < 0 then ''-'' else '''') @ digits_of (c div 1000) @ ''.'' @
      zero_pad 3 (digits_of (c mod 1000)))"

text \<open>
  \<^verbatim>\<open>'%g' % x\<close>: six significant digits, trailing zeros dropped, an exponent when the
  decimal exponent is below -4 or not below 6. \<open>neg\<close> is the sign of the number, which a
  zero has too.
\<close>

definition fmt_g :: "bool \<Rightarrow> rat \<Rightarrow> string" where
  "fmt_g neg m =
     (if neg then ''-'' else '''') @
     (if m = 0 then ''0''
      else
        let e0 = dec_exp m;
            c0 = round_half_even (\<bar>m\<bar> / pow10 (e0 - 5));
            e = (if c0 = 1000000 then e0 + 1 else e0);
            c = (if c0 = 1000000 then 100000 else c0)
        in if e < - 4 \<or> 6 \<le> e then
             let ds = digits_of c;
                 frac = strip_zeros (tl ds)
             in [hd ds] @ (if frac = [] then '''' else ''.'' @ frac) @ ''e'' @
                (if e < 0 then ''-'' else ''+'') @ zero_pad 2 (digits_of \<bar>e\<bar>)
           else
             let k = nat (5 - e);
                 frac = strip_zeros (zero_pad k (digits_of (c mod 10 ^ k)))
             in digits_of (c div 10 ^ k) @ (if k = 0 \<or> frac = [] then '''' else ''.'' @ frac))"

subsection \<open>Decimal\<close>

text \<open>
  \<^verbatim>\<open>Decimal(a) / Decimal(b)\<close> in the default context: the quotient rounded to 28
  significant digits, ties to even; its sign is negative when exactly one operand is.
  \<^verbatim>\<open>quantize(q)\<close> rounds to the exponent of \<open>q\<close>, ties to even, and raises
  InvalidOperation when the result needs more than 28 digits. Both results are given as a
  sign and a magnitude.
\<close>

definition decimal_div :: "rat \<Rightarrow> rat \<Rightarrow> error + (bool \<times> rat)" where
  "decimal_div a b =
     (if b = 0 then (if a = 0 then Inl InvalidOperation else Inl DivisionByZero)
      else
        let neg = ((a < 0) \<noteq> (b < 0)); x = \<bar>a / b\<bar> in
        if x = 0 then Inr (neg, 0)
        else
          let s = pow10 (dec_exp x - 27) in
          Inr (neg, of_int (round_half_even (x / s)) * s))"

definition quantize :: "bool \<times> rat \<Rightarrow> decimal \<Rightarrow> error + (bool \<times> rat)" where
  "quantize x q =
     (case q of Decimal _ e \<Rightarrow>
        let c = round_half_even (snd x / pow10 e) in
        if 10 ^ 28 \<le> c then Inl InvalidOperation
        else Inr (fst x, of_int c * pow10 e))"

section \<open>Units (utils.py)\<close>

text \<open>
  \<open>units_string\<close>: the translator is an object from outside; \<open>transl\<close> holds its
  \<open>tr\<close> method, and calling it on \<^verbatim>\<open>None\<close> is an AttributeError.
\<close>

definition units_string :: "'a Units \<Rightarrow> bool \<Rightarrow> bool \<Rightarrow> error + string" where
  "units_string u verbose withParens =
     (let form = (\<lambda>x. if withParens then '' ('' @ x @ '')'' else '' '' @ x) in
      if metric u then
        (case transl u of
           None \<Rightarrow> Inl AttributeError
         | Some tr \<Rightarrow> Inr (form (tr (if verbose then ''millimeters'' else ''mm''))))
      else if verbose then
        (case transl u of None \<Rightarrow> Inl AttributeError | Some tr \<Rightarrow> Inr (form (tr ''inches'')))
      else if withParens then
        (case transl u of None \<Rightarrow> Inl AttributeError | Some tr \<Rightarrow> Inr (form (tr ''in.'')))
      else Inr [CHR 0x22])"

definition allow_denoms :: "int list" where
  "allow_denoms = [1, 2, 4, 8, 16, 32, 64]"

text \<open>
  \<open>increments_to_string\<close> reads the class attribute \<^verbatim>\<open>Units.quant\<close>, which is not
  part of the instance: it is the argument \<open>quant\<close>, the value the attribute has when
  the method runs.
\<close>

definition increments_to_string ::
  "decimal \<Rightarrow> string Units \<Rightarrow> number \<Rightarrow> bool \<Rightarrow> error + string" where
  "increments_to_string quant u increments with_units =
     bind_result
       (if metric u then
          bind_result (decimal_div (num_val increments) (of_int (num_increments u))) (\<lambda>x.
          bind_result (quantize x quant) (\<lambda>y. Inr (fmt_g (fst y) (snd y))))
        else
          let numer = (case increments of
                         PyFloat r \<Rightarrow> trunc (100 * r)
                       | PyInt i \<Rightarrow> i);
              denom = (case increments of
                         PyFloat r \<Rightarrow> num_times (increments_per_inch u) 100
                       | PyInt i \<Rightarrow> increments_per_inch u);
              frac0 = My_Fraction_init (Units.english_separator u) 0 numer
                        (Some (int_of_num denom))
          in bind_result (reduce frac0) (\<lambda>frac.
               if numerator frac \<noteq> 0 \<and>
                  (case denominator frac of
                     None \<Rightarrow> True
                   | Some d \<Rightarrow> d \<notin> set allow_denoms)
               then
                 (if num_increments u = 0 then Inl ZeroDivisionError
                  else Inr (fmt_3f (num_val increments / of_int (num_increments u))))
               else to_string frac))
       (\<lambda>r. if with_units then bind_result (units_string u False False) (\<lambda>us. Inr (r @ us))
            else Inr r)"

text \<open>
  The separators for which a string made by \<open>increments_to_string\<close> is read back as
  it was meant: not empty, no decimal point, and starting with neither a digit nor a slash.
  The usual single space is one.
\<close>

definition separator_ok :: "string \<Rightarrow> bool" where
  "separator_ok s = (s \<noteq> [] \<and> CHR ''.'' \<notin> set s \<and> \<not> is_digit (hd s) \<and> hd s \<noteq> CHR ''/'')"

definition length_to_increments :: "'a Units \<Rightarrow> number \<Rightarrow> bool \<Rightarrow> number" where
  "length_to_increments u v as_integer =
     (let i = num_times v (num_increments u) in
      if as_integer then PyInt (my_round i) else i)"

definition string_to_float :: "string Units \<Rightarrow> string \<Rightarrow> error + number" where
  "string_to_float u s =
     bind_result (set_from_string (My_Fraction_init (Units.english_separator u) 0 0 None) s)
       (\<lambda>f. if 0 < numerator f then
              (case denominator f of
                 None \<Rightarrow> Inl TypeError
               | Some d \<Rightarrow>
                   if d = 0 then Inl ZeroDivisionError
                   else Inr (PyFloat (of_int (whole f) + of_int (numerator f) / of_int d)))
            else Inr (PyInt (whole f)))"

definition string_to_increments :: "string Units \<Rightarrow> string \<Rightarrow> bool \<Rightarrow> error + number" where
  "string_to_increments u s as_integer =
     bind_result (string_to_float u s) (\<lambda>v. Inr (length_to_increments u v as_integer))"

section \<open>print\_table (utils.py)\<close>







text \<open>\<^verbatim>\<open>' %4s %9s ' % (label, dim)\<close>: each string right-aligned in its width, never cut.\<close>

definition rjust :: "nat \<Rightarrow> string \<Rightarrow> string" where
  "rjust n s = replicate (n - length s) CHR '' '' @ s"

definition form :: "string \<Rightarrow> string \<Rightarrow> string" where
  "form label dim' = '' '' @ rjust 4 label @ '' '' @ rjust 9 dim' @ '' ''"


text \<open>
  The variables of the print loop: the three arrays with one entry per column, the line
  being built and the flag \<open>printing\<close>.
\<close>

record loop_state =
  pass_index :: "int list"
  cut_index :: "int list"
  total_passes :: "int list"
  line :: string
  printing :: bool




text \<open>
  What decreases from one row of the loop to the next: a bound on the steps that column
  \<open>j\<close> can still take, summed over the columns.
\<close>

definition cut_bound :: "Cut list list \<Rightarrow> int" where
  "cut_bound all_cuts =
     2 * int (sum_list (map (\<lambda>c. length (passes c)) (concat all_cuts))) + 2"

definition col_potential :: "int \<Rightarrow> int \<Rightarrow> int \<Rightarrow> nat" where
  "col_potential L ci pidx = nat ((ci + 1) * L - pidx)"

definition potential :: "Cut list list \<Rightarrow> loop_state \<Rightarrow> nat" where
  "potential all_cuts st =
     sum_list (map (\<lambda>j. col_potential (cut_bound all_cuts) (cut_index st ! j) (pass_index st ! j))
                 [0..<length all_cuts])"


subsection \<open>What the report holds\<close>














subsection \<open>A small design\<close>




section \<open>Whole numbers in floats\<close>

lemma bit_length_le: "n < 2 ^ k \<Longrightarrow> bit_length n \<le> k"
proof (induction k arbitrary: n)
  case 0
  then show ?case by (simp add: bit_length.simps)
next
  case (Suc k)
  then have "n div 2 < 2 ^ k" by simp
  then have "bit_length (n div 2) \<le> k" by (rule Suc.IH)
  then show ?case by (subst bit_length.simps) simp
qed

lemma round_53_small: "\<bar>q\<bar> < 2 ^ 53 \<Longrightarrow> round_53 q = q"
proof -
  assume "\<bar>q\<bar> < 2 ^ 53"
  then have "bit_length \<bar>q\<bar> \<le> 53" by (rule bit_length_le)
  then show ?thesis by (simp add: round_53_def Let_def)
qed

lemma float_of_int_small: "\<bar>q\<bar> < 2 ^ 53 \<Longrightarrow> float_of_int q = Inr q"
proof -
  assume a: "\<bar>q\<bar> < 2 ^ 53"
  have "(2::int) ^ 53 \<le> 2 ^ 1024" by (rule power_increasing) simp_all
  with a have "\<not> 2 ^ 1024 \<le> \<bar>q\<bar>" by linarith
  with a show ?thesis by (simp add: float_of_int_def round_53_small)
qed

section \<open>Reduction of a fraction\<close>

lemma abs_div_gcd_le1: "\<bar>(a::int) div gcd a b\<bar> \<le> \<bar>a\<bar>"
  by (metis abs_div div_0 gcd_dvd1 int_div_le_self order_refl zero_less_abs_iff)

lemma abs_div_gcd_le2: "\<bar>(b::int) div gcd a b\<bar> \<le> \<bar>b\<bar>"
  by (metis abs_div div_0 gcd.commute gcd_dvd1 int_div_le_self order_refl zero_less_abs_iff)

text \<open>
  What \<open>reduce\<close> computes when the denominator fits a double: the quotient goes to
  \<open>whole\<close>, the remainder and the denominator are divided by their gcd.
\<close>

lemma reduce_small:
  assumes d: "denominator f = Some d" and d0: "d \<noteq> 0" and small: "\<bar>d\<bar> < 2 ^ 53"
    and n0: "numerator f \<noteq> 0"
  shows "reduce f = Inr (f\<lparr>whole := whole f + numerator f div d,
           numerator := (numerator f mod d) div gcd (numerator f mod d) d,
           denominator := Some (d div gcd (numerator f mod d) d)\<rparr>)"
proof -
  let ?m = "numerator f mod d"
  let ?g = "gcd ?m d"
  have m: "numerator f - numerator f div d * d = ?m"
    by (simp add: minus_div_mult_eq_mod)
  have "\<bar>?m\<bar> < \<bar>d\<bar>" using d0 abs_mod_less by simp
  with small have msmall: "\<bar>?m\<bar> < 2 ^ 53" by linarith
  have "\<bar>?m div ?g\<bar> \<le> \<bar>?m\<bar>" by (rule abs_div_gcd_le1)
  with msmall have "\<bar>?m div ?g\<bar> < 2 ^ 53" by linarith
  then have f1: "float_of_int (?m div ?g) = Inr (?m div ?g)" by (rule float_of_int_small)
  have "\<bar>d div ?g\<bar> \<le> \<bar>d\<bar>" by (rule abs_div_gcd_le2)
  with small have "\<bar>d div ?g\<bar> < 2 ^ 53" by linarith
  then have f2: "float_of_int (d div ?g) = Inr (d div ?g)" by (rule float_of_int_small)
  show ?thesis
    using d d0 n0 by (simp add: reduce_def Let_def m f1 f2 bind_result_def)
qed

lemma reduced_div_zero:
  fixes n d :: int
  assumes d0: "d \<noteq> 0"
  shows "((n mod d) div gcd (n mod d) d) div (d div gcd (n mod d) d) = 0"
proof -
  let ?m = "n mod d"
  let ?g = "gcd ?m d"
  have g: "0 < ?g" using d0 by (simp add: gcd_pos_int)
  have "?g dvd ?m" by simp
  then obtain a where a: "?m = ?g * a" by (rule dvdE)
  have "?g dvd d" by simp
  then obtain b where b: "d = ?g * b" by (rule dvdE)
  have qa: "?m div ?g = a" using g by (subst a) simp
  have qb: "d div ?g = b" using g by (subst b) simp
  show ?thesis
  proof (cases "0 < d")
    case True
    then have "0 \<le> ?m" and "?m < d" by simp_all
    then have "?g * 0 \<le> ?g * a" and "?g * a < ?g * b" using a b by simp_all
    then have "0 \<le> a" and "a < b"
      using g mult_le_cancel_left_pos [of ?g 0 a] mult_less_cancel_left_pos [of ?g a b]
      by blast+
    then show ?thesis by (simp add: qa qb)
  next
    case False
    with d0 have "d < 0" by simp
    then have "?m \<le> 0" and "d < ?m" by simp_all
    then have "?g * a \<le> ?g * 0" and "?g * b < ?g * a" using a b by simp_all
    then have "a \<le> 0" and "b < a"
      using g mult_le_cancel_left_pos [of ?g a 0] mult_less_cancel_left_pos [of ?g b a]
      by blast+
    then show ?thesis by (simp add: qa qb div_neg_neg_trivial)
  qed
qed

lemma reduced_coprime:
  fixes n d :: int
  assumes d0: "d \<noteq> 0"
  shows "gcd ((n mod d) div gcd (n mod d) d) (d div gcd (n mod d) d) = 1"
  using d0 by (simp add: div_gcd_coprime)

lemma reduce_twice_small:
  assumes d: "denominator f = Some d" and d0: "d \<noteq> 0" and small: "\<bar>d\<bar> < 2 ^ 53"
    and n0: "numerator f \<noteq> 0" and r: "reduce f = Inr f'"
  shows "reduce f' = Inr f'"
proof -
  let ?m = "numerator f mod d"
  let ?g = "gcd ?m d"
  let ?n' = "?m div ?g"
  let ?d' = "d div ?g"
  from reduce_small [OF d d0 small n0] r
  have f': "f' = f\<lparr>whole := whole f + numerator f div d, numerator := ?n', denominator := Some ?d'\<rparr>"
    by simp
  have g: "0 < ?g" using d0 by (simp add: gcd_pos_int)
  have d'0: "?d' \<noteq> 0" using d0 g by (simp add: dvd_div_eq_0_iff)
  have "\<bar>?d'\<bar> \<le> \<bar>d\<bar>" by (rule abs_div_gcd_le2)
  with small have d's: "\<bar>?d'\<bar> < 2 ^ 53" by linarith
  show ?thesis
  proof (cases "?n' = 0")
    case True
    then show ?thesis by (simp add: f' reduce_def)
  next
    case False
    have den: "denominator f' = Some ?d'" by (simp add: f')
    have num: "numerator f' \<noteq> 0" using False by (simp add: f')
    have dz: "?n' div ?d' = 0" using d0 by (rule reduced_div_zero)
    have md: "?n' mod ?d' = ?n'" using div_mult_mod_eq [of ?n' ?d'] dz by simp
    have cp: "gcd ?n' ?d' = 1" using d0 by (rule reduced_coprime)
    have "reduce f' = Inr (f'\<lparr>whole := whole f' + numerator f' div ?d',
           numerator := (numerator f' mod ?d') div gcd (numerator f' mod ?d') ?d',
           denominator := Some (?d' div gcd (numerator f' mod ?d') ?d')\<rparr>)"
      by (rule reduce_small [OF den d'0 d's num])
    moreover have "numerator f' = ?n'" by (simp add: f')
    ultimately have "reduce f' = Inr (f'\<lparr>whole := whole f', numerator := ?n', denominator := Some ?d'\<rparr>)"
      by (simp only: dz md cp add_0_right div_by_1)
    then show ?thesis by (simp add: f')
  qed
qed

text \<open>
  Where the floats are exact, \<open>reduce\<close> does what its docstring says. For a fraction
  whose denominator is unset or below \<open>2^53\<close> in absolute value, a second \<open>reduce\<close>
  changes nothing; it raises only for a zero denominator under a non-zero numerator, and
  it is a no-op when the denominator is unset or the numerator is zero.
\<close>

lemma reduce_twice_exact_floats:
  assumes small: "\<forall>d. denominator f = Some d \<longrightarrow> \<bar>d\<bar> < 2 ^ 53"
  shows "bind_result (reduce f) reduce = reduce f
    \<and> (denominator f = None \<or> numerator f = 0 \<longrightarrow> reduce f = Inr f)
    \<and> ((\<exists>f'. reduce f = Inr f') \<or>
        (reduce f = Inl ZeroDivisionError \<and> denominator f = Some 0 \<and> numerator f \<noteq> 0))"
proof (cases "denominator f")
  case None
  then show ?thesis by (simp add: reduce_def bind_result_def)
next
  case (Some d)
  show ?thesis
  proof (cases "numerator f = 0")
    case True
    with Some show ?thesis by (simp add: reduce_def bind_result_def)
  next
    case n0: False
    show ?thesis
    proof (cases "d = 0")
      case True
      with Some n0 show ?thesis by (simp add: reduce_def bind_result_def)
    next
      case False
      from small Some have s: "\<bar>d\<bar> < 2 ^ 53" by simp
      from reduce_small [OF Some False s n0] obtain f' where r: "reduce f = Inr f'" by blast
      from reduce_twice_small [OF Some False s n0 r] have "reduce f' = Inr f'" .
      with r Some n0 show ?thesis by (simp add: bind_result_def)
    qed
  qed
qed

text \<open>
  Claim C7 at the input that decides it. The numerator \<open>2^53 + 1\<close> and the denominator
  \<open>2^53 + 3\<close> are coprime. \<open>reduce\<close> divides both by their gcd, 1, with the true
  division \<^verbatim>\<open>/=\<close> where the floor division \<^verbatim>\<open>//=\<close> would keep them integers: the
  floats that hold them afterwards are \<open>2^53\<close> and \<open>2^53 + 4\<close>, another fraction and
  not in lowest terms, and a second \<open>reduce\<close> divides both by 4.
\<close>

theorem reduce_true_division_not_idempotent:
  "reduce \<lparr>sign = 1, whole = 0, numerator = 9007199254740993,
          denominator = Some 9007199254740995, english_separator = '' ''\<rparr>
   = Inr \<lparr>sign = 1, whole = 0, numerator = 9007199254740992,
          denominator = Some 9007199254740996, english_separator = '' ''\<rparr>
  \<and> reduce \<lparr>sign = 1, whole = 0, numerator = 9007199254740992,
          denominator = Some 9007199254740996, english_separator = '' ''\<rparr>
   = Inr \<lparr>sign = 1, whole = 0, numerator = 2251799813685248,
          denominator = Some 2251799813685249, english_separator = '' ''\<rparr>"
  by code_simp

section \<open>The string of a fraction\<close>

text \<open>
  Claim C2 at the inputs that decide it. With a negative sign and a whole part, the
  assignment of the whole part's digits replaces the \<open>-\<close> written before it:
  \<^verbatim>\<open>My_Fraction(' ', -1, 1, 2).to_string()\<close> is \<open>1 1/2\<close>. Without a whole part the
  sign stays: sign -1, whole 0, numerator 3, denominator 4 gives \<open>-3/4\<close>.
\<close>

theorem to_string_negative_whole_loses_sign:
  "to_string (My_Fraction_init '' '' (- 1) 1 (Some 2)) = Inr ''1 1/2''
   \<and> to_string \<lparr>sign = - 1, whole = 0, numerator = 3, denominator = Some 4,
                 english_separator = '' ''\<rparr> = Inr ''-3/4''"
  by code_simp

section \<open>Margins\<close>

text \<open>
  Claim C10. The \<open>sep\<close> field of a new Margins is the default whether or not a
  \<open>sep\<close> argument was given; each of \<open>left\<close>, \<open>right\<close>, \<open>bottom\<close> and \<open>top\<close>
  is its argument when given and the default otherwise.
\<close>

theorem Margins_init_fields:
  "sep (Margins_init d s l r b t) = d
   \<and> left (Margins_init d s l r b t) = (case l of None \<Rightarrow> d | Some x \<Rightarrow> x)
   \<and> right (Margins_init d s l r b t) = (case r of None \<Rightarrow> d | Some x \<Rightarrow> x)
   \<and> bottom (Margins_init d s l r b t) = (case b of None \<Rightarrow> d | Some x \<Rightarrow> x)
   \<and> top' (Margins_init d s l r b t) = (case t of None \<Rightarrow> d | Some x \<Rightarrow> x)"
  by (simp add: Margins_init_def split: option.split)

theorem Margins_init_fields_witness:
  "sep (Margins_init 8 (Some 3) None None (Some 16) None) = 8
   \<and> left (Margins_init 8 (Some 3) None None (Some 16) None) = 8
   \<and> bottom (Margins_init 8 (Some 3) None None (Some 16) None) = 16"
  using Margins_init_fields [of 8 "Some 3" None None "Some 16" None] by simp

section \<open>Serialization\<close>

text \<open>
  Claim C1 at the inputs that decide it. \<open>serialize\<close> of a design in English units with
  64 increments per inch stores 64 after the \<open>metric\<close> flag. \<open>unserialize\<close> passes
  the stored value as the only argument of \<^verbatim>\<open>utils.Units\<close>, whose first parameter is
  \<open>english_separator\<close>: the units it builds have 64 as separator and the default 32
  increments per inch. For a metric stream it calls \<^verbatim>\<open>utils.Units(metric=True)\<close>, which
  lacks the required first argument and raises TypeError.
\<close>

theorem unserialize_units_ignore_stored_increments:
  "serialize
     \<lparr>Router_Bit.units = \<lparr>english_separator = '' '', metric = False, transl = None,
                num_increments = 64, increments_per_inch = PyInt 64\<rparr>,
      Router_Bit.width = PNum (PyInt 16), depth = PNum (PyInt 24), angle = PNum (PyInt 0)\<rparr>
     [\<lparr>units = \<lparr>english_separator = '' '', metric = False, transl = None,
                 num_increments = 64, increments_per_inch = PyInt 64\<rparr>,
       width = 256, active = True, top_cuts = [], bottom_cuts = []\<rparr>]
     \<lparr>description = ''Equally spaced'', cuts = PList [], params = PList []\<rparr>
     \<lparr>debug = False\<rparr>
   = Inr [PStr ''0.9.4'', PBool False, PNum (PyInt 64), PNum (PyInt 16), PNum (PyInt 24),
          PNum (PyInt 0), PNum (PyInt 1), PNum (PyInt 256), PStr ''Equa'', PList []]
   \<and> (let u = \<lparr>english_separator = PNum (PyInt 64), metric = False, transl = None,
                  num_increments = 32, increments_per_inch = PyInt 32\<rparr>;
           b = Router_Bit ext u (PNum (PyInt 16)) (PNum (PyInt 24)) (PNum (PyInt 0));
           bs = [Board ext b (PNum (PyInt 256))]
       in unserialize ext
            [PStr ''0.9.4'', PBool False, PNum (PyInt 64), PNum (PyInt 16), PNum (PyInt 24),
             PNum (PyInt 0), PNum (PyInt 1), PNum (PyInt 256), PStr ''Equa'', PList []]
            config
          = Inr ((b, bs,
                  set_cuts ext (set_params ext (Equally_Spaced ext b bs config) (PList [])) None,
                  PStr ''Equa''),
                 Decimal 1 (- 3)))
   \<and> unserialize ext
        [PStr ''0.9.4'', PBool True, PNum (PyInt 16), PNum (PyInt 24),
         PNum (PyInt 0), PNum (PyInt 1), PNum (PyInt 256), PStr ''Equa'', PList []]
        config
     = Inl TypeError"
  by (simp add: serialize_def unserialize_def VERSION_def Units_init_def bind_result_def Let_def)

text \<open>
  Claim C4. When \<open>unserialize\<close> reads a spacing tag other than \<open>Edit\<close> and
  \<open>Equa\<close> (any value at all, recognised or not), it returns without an exception: it
  builds the Variable-spacing object from the bit and the boards, assigns the parameter
  record read next to its \<open>params\<close>, and calls \<open>set_cuts\<close> with no argument, which
  recomputes the cuts. The tag is read only from a stream whose \<open>metric\<close> flag is false
  (a metric stream has raised before) and whose board count is one \<^verbatim>\<open>range\<close> accepts.
\<close>

theorem unserialize_other_tag_is_Variable_Spaced:
  assumes "\<not> truthy metric_flag" and "range_count nb = Inr n"
    and "tag \<noteq> PStr ''Edit''" and "tag \<noteq> PStr ''Equa''"
  shows "let u = \<lparr>english_separator = ipi, metric = False, transl = None,
                  num_increments = 32, increments_per_inch = PyInt 32\<rparr>;
             b = Router_Bit ext u w d a;
             bs = replicate n (Board ext b bw)
         in unserialize ext
              (version # metric_flag # ipi # w # d # a # nb # bw # tag # p # rest) config
            = Inr ((b, bs,
                    set_cuts ext (set_params ext (Variable_Spaced ext b bs config) p) None,
                    tag),
                   Decimal 1 (- 3))"
  using assms
  by (simp add: unserialize_def Units_init_def bind_result_def Let_def)

theorem unserialize_other_tag_is_Variable_Spaced_witness:
  "\<not> truthy (PBool False) \<and> range_count (PNum (PyInt 2)) = Inr 2
   \<and> PStr ''Vari'' \<noteq> PStr ''Edit'' \<and> PStr ''Vari'' \<noteq> PStr ''Equa''
   \<and> unserialize
        \<lparr>Router_Bit = \<lambda>u w d a. (u, w, d, a), Board = \<lambda>b w. (b, w),
         Edit_Spaced = \<lambda>b bs c. (''Edit_Spaced'', b, bs, PNone, PNone),
         Equally_Spaced = \<lambda>b bs c. (''Equally_Spaced'', b, bs, PNone, PNone),
         Variable_Spaced = \<lambda>b bs c. (''Variable_Spaced'', b, bs, PNone, PNone),
         set_params = \<lambda>(k, b, bs, p, c) p'. (k, b, bs, p', c),
         set_cuts = \<lambda>(k, b, bs, p, c) c'. (k, b, bs, p, case c' of None \<Rightarrow> p | Some x \<Rightarrow> x)\<rparr>
        [PStr ''0.9.4'', PBool False, PNum (PyInt 32), PNum (PyInt 16), PNum (PyInt 24),
         PNum (PyInt 0), PNum (PyInt 2), PNum (PyInt 256), PStr ''Vari'', PList [PNum (PyInt 7)]]
        \<lparr>debug = False\<rparr>
     = (let u = \<lparr>english_separator = PNum (PyInt 32), metric = False, transl = None,
                  num_increments = 32, increments_per_inch = PyInt 32\<rparr>;
            b = (u, PNum (PyInt 16), PNum (PyInt 24), PNum (PyInt 0));
            bs = [(b, PNum (PyInt 256)), (b, PNum (PyInt 256))]
        in Inr ((b, bs,
                 (''Variable_Spaced'', b, bs, PList [PNum (PyInt 7)], PList [PNum (PyInt 7)]),
                 PStr ''Vari''),
                Decimal 1 (- 3)))"
proof -
  have h1: "\<not> truthy (PBool False)" by simp
  have h2: "range_count (PNum (PyInt 2)) = Inr 2" by simp
  have h3: "PStr ''Vari'' \<noteq> PStr ''Edit''" by simp
  have h4: "PStr ''Vari'' \<noteq> PStr ''Equa''" by simp
  show ?thesis
    using unserialize_other_tag_is_Variable_Spaced [OF h1 h2 h3 h4,
      where ext = "\<lparr>Router_Bit = \<lambda>u w d a. (u, w, d, a), Board = \<lambda>b w. (b, w),
         Edit_Spaced = \<lambda>b bs c. (''Edit_Spaced'', b, bs, PNone, PNone),
         Equally_Spaced = \<lambda>b bs c. (''Equally_Spaced'', b, bs, PNone, PNone),
         Variable_Spaced = \<lambda>b bs c. (''Variable_Spaced'', b, bs, PNone, PNone),
         set_params = \<lambda>(k, b, bs, p, c) p'. (k, b, bs, p', c),
         set_cuts = \<lambda>(k, b, bs, p, c) c'. (k, b, bs, p, case c' of None \<Rightarrow> p | Some x \<Rightarrow> x)\<rparr>"
      and version = "PStr ''0.9.4''" and ipi = "PNum (PyInt 32)" and w = "PNum (PyInt 16)"
      and d = "PNum (PyInt 24)" and a = "PNum (PyInt 0)" and bw = "PNum (PyInt 256)"
      and p = "PList [PNum (PyInt 7)]" and rest = "[]" and config = "\<lparr>debug = False\<rparr>"]
    by (simp add: Let_def numeral_2_eq_2)
qed

section \<open>The print loop terminates\<close>










lemma potential_reset [simp]:
  "potential all_cuts (st\<lparr>line := l, printing := b\<rparr>) = potential all_cuts st"
  by (simp add: potential_def)



section \<open>Parsing what was formatted\<close>

subsection \<open>Digits\<close>

lemma digit_char_props:
  assumes "0 \<le> k" and "k < 10"
  shows "is_digit (''0123456789'' ! nat k)" and "digit_val (''0123456789'' ! nat k) = k"
proof -
  from assms have "k = 0 \<or> k = 1 \<or> k = 2 \<or> k = 3 \<or> k = 4 \<or> k = 5 \<or> k = 6
      \<or> k = 7 \<or> k = 8 \<or> k = 9" by arith
  then show "is_digit (''0123456789'' ! nat k)" and "digit_val (''0123456789'' ! nat k) = k"
    by (auto simp: is_digit_def digit_val_def)
qed

lemma digits_of_all_digits: "0 \<le> n \<Longrightarrow> \<forall>c \<in> set (digits_of n). is_digit c"
proof (induction n rule: digits_of.induct)
  case (1 n)
  show ?case
  proof (cases "n < 10")
    case True
    with "1.prems" show ?thesis by (subst digits_of.simps) (simp add: digit_char_props)
  next
    case False
    then have "0 \<le> n div 10" by simp
    with "1.IH" False have "\<forall>c \<in> set (digits_of (n div 10)). is_digit c" by simp
    moreover have "is_digit (''0123456789'' ! nat (n mod 10))"
      by (rule digit_char_props) simp_all
    ultimately show ?thesis using False by (subst digits_of.simps) simp
  qed
qed

lemma digits_of_nonempty: "digits_of n \<noteq> []"
  by (subst digits_of.simps) simp


lemma digits_val_all_digits:
  "\<forall>c \<in> set ds. is_digit c \<Longrightarrow> digits_val acc ds = Some (digits_value acc ds)"
  by (induction acc ds rule: digits_val.induct) (auto simp: digits_value_def)

lemma digits_value_digits_of: "0 \<le> n \<Longrightarrow> digits_value 0 (digits_of n) = n"
proof (induction n rule: digits_of.induct)
  case (1 n)
  show ?case
  proof (cases "n < 10")
    case True
    with "1.prems" show ?thesis
      by (subst digits_of.simps) (simp add: digits_value_def digit_char_props)
  next
    case False
    then have "0 \<le> n div 10" by simp
    with "1.IH" False have "digits_value 0 (digits_of (n div 10)) = n div 10" by simp
    moreover have "digit_val (''0123456789'' ! nat (n mod 10)) = n mod 10"
      by (rule digit_char_props) simp_all
    ultimately show ?thesis using False
      by (subst digits_of.simps) (simp add: digits_value_def)
  qed
qed

lemma unsigned_val_digits_of: "0 \<le> n \<Longrightarrow> unsigned_val (digits_of n) = Some n"
proof -
  assume n: "0 \<le> n"
  obtain c cs where cs: "digits_of n = c # cs"
    using digits_of_nonempty [of n] by (cases "digits_of n") auto
  from digits_of_all_digits [OF n] cs have c: "is_digit c" and rest: "\<forall>x \<in> set cs. is_digit x"
    by auto
  have "digits_value 0 (c # cs) = digits_value (digit_val c) cs"
    by (simp add: digits_value_def)
  with digits_value_digits_of [OF n] cs have "digits_value (digit_val c) cs = n" by simp
  with c rest show ?thesis by (simp add: cs digits_val_all_digits)
qed

lemma is_digit_not_space: "is_digit c \<Longrightarrow> \<not> is_space c"
  by (auto simp: is_digit_def is_space_def Let_def)

lemma strip_no_outer_space:
  assumes "s \<noteq> []" and "\<not> is_space (hd s)" and "\<not> is_space (last s)"
  shows "strip s = s"
proof -
  from assms have "dropWhile is_space s = s" by (cases s) auto
  moreover from assms have "dropWhile is_space (rev s) = rev s"
    by (cases "rev s") (auto simp: last_rev [symmetric] simp del: last_rev)
  ultimately show ?thesis by (simp add: strip_def)
qed

lemma int_of_str_digits_of: "0 \<le> n \<Longrightarrow> int_of_str (digits_of n) = Inr n"
proof -
  assume n: "0 \<le> n"
  let ?s = "digits_of n"
  have ne: "?s \<noteq> []" by (rule digits_of_nonempty)
  from digits_of_all_digits [OF n] ne have "is_digit (hd ?s)" and "is_digit (last ?s)"
    by auto
  then have sp: "\<not> is_space (hd ?s)" "\<not> is_space (last ?s)" and hd: "is_digit (hd ?s)"
    by (auto dest: is_digit_not_space)
  from strip_no_outer_space [OF ne sp] have st: "strip ?s = ?s" .
  obtain c cs where cs: "?s = c # cs" using ne by (cases ?s) auto
  with hd have "c \<noteq> CHR ''-''" and "c \<noteq> CHR ''+''" by (auto simp: is_digit_def)
  with unsigned_val_digits_of [OF n] st show ?thesis
    by (simp add: int_of_str_def cs)
qed

subsection \<open>Finding, replacing and splitting\<close>

lemma str_find_absent: "c \<notin> set s \<Longrightarrow> str_find c s = - 1"
  by (induction s) auto

lemma replace1_absent:
  assumes "old \<noteq> []" and "hd old \<notin> set s"
  shows "replace1 old new s = s"
  using assms
proof (induction s)
  case Nil
  then show ?case by simp
next
  case (Cons x xs)
  from Cons.prems have "x \<noteq> hd old" by auto
  with Cons.prems(1) have "take (length old) (x # xs) \<noteq> old"
    by (cases old) auto
  with Cons show ?case by simp
qed

lemma replace1_first:
  assumes "old \<noteq> []" and "hd old \<notin> set xs"
  shows "replace1 old new (xs @ old @ ys) = xs @ new @ ys"
  using assms
proof (induction xs)
  case Nil
  obtain a list where al: "old @ ys = a # list" using Nil.prems(1) by (cases old) auto
  have "take (length old) (a # list) = old" and "drop (length old) (a # list) = ys"
    by (simp_all add: al [symmetric])
  then show ?case by (simp add: al)
next
  case (Cons x xs)
  from Cons.prems have "x \<noteq> hd old" by auto
  with Cons.prems(1) have "take (length old) (x # xs @ old @ ys) \<noteq> old"
    by (cases old) auto
  with Cons show ?case by simp
qed

lemma split_on_absent: "c \<notin> set s \<Longrightarrow> split_on c s = [s]"
  by (induction s) (auto simp: Let_def)

lemma split_on_first: "c \<notin> set xs \<Longrightarrow> split_on c (xs @ c # ys) = xs # split_on c ys"
  by (induction xs) (auto simp: Let_def)

lemma split_ws_from_word:
  "\<forall>c \<in> set xs. \<not> is_space c \<Longrightarrow> split_ws_from w (xs @ ys) = split_ws_from (w @ xs) ys"
  by (induction xs arbitrary: w) auto

lemma split_ws_one:
  assumes "xs \<noteq> []" and "\<forall>c \<in> set xs. \<not> is_space c"
  shows "split_ws xs = [xs]"
  using split_ws_from_word [OF assms(2), of "[]" "[]"] assms(1) by (simp add: split_ws_def)

lemma split_ws_two:
  assumes "xs \<noteq> []" and "\<forall>c \<in> set xs. \<not> is_space c"
    and "ys \<noteq> []" and "\<forall>c \<in> set ys. \<not> is_space c"
  shows "split_ws (xs @ '' '' @ ys) = [xs, ys]"
proof -
  have "split_ws (xs @ '' '' @ ys) = split_ws_from xs ('' '' @ ys)"
    using split_ws_from_word [OF assms(2), of "[]" "'' '' @ ys"] by (simp add: split_ws_def)
  also have "\<dots> = xs # split_ws_from [] ys"
    using assms(1) by (simp add: is_space_def)
  also have "split_ws_from [] ys = [ys]"
    using split_ws_one [OF assms(3,4)] by (simp add: split_ws_def)
  finally show ?thesis .
qed

subsection \<open>Reading the three forms of a fraction string\<close>

lemma digits_of_chars:
  assumes "0 \<le> n"
  shows "CHR ''.'' \<notin> set (digits_of n)" and "CHR ''/'' \<notin> set (digits_of n)"
    and "\<forall>c \<in> set (digits_of n). \<not> is_space c"
    and "\<not> is_digit c \<Longrightarrow> c \<notin> set (digits_of n)"
proof -
  note d = digits_of_all_digits [OF assms]
  show "CHR ''.'' \<notin> set (digits_of n)" using d by (auto simp: is_digit_def)
  show "CHR ''/'' \<notin> set (digits_of n)" using d by (auto simp: is_digit_def)
  show "\<forall>c \<in> set (digits_of n). \<not> is_space c" using d by (auto dest: is_digit_not_space)
  show "\<not> is_digit c \<Longrightarrow> c \<notin> set (digits_of n)" using d by auto
qed


lemma separator_after_reset:
  "My_Fraction.english_separator (f0\<lparr>whole := 0, numerator := 0, denominator := Some 1\<rparr>)
   = My_Fraction.english_separator f0"
  by simp

lemma set_from_string_one_part:
  assumes "str_find CHR ''.'' s = - 1"
    and "(if My_Fraction.english_separator f0 \<noteq> '' ''
          then replace1 (My_Fraction.english_separator f0) '' '' s else s) = t"
    and "split_on CHR ''/'' t = [a]" and "int_of_str a = Inr w"
  shows "set_from_string f0 s = Inr (f0\<lparr>whole := w, numerator := 0, denominator := Some 1\<rparr>)"
  unfolding set_from_string_def Let_def assms(1) separator_after_reset
  by (simp only: simp_thms if_True assms(2) assms(3)) (simp add: assms(4) bind_result_def)

lemma set_from_string_two_parts_one_word:
  assumes "str_find CHR ''.'' s = - 1"
    and "(if My_Fraction.english_separator f0 \<noteq> '' ''
          then replace1 (My_Fraction.english_separator f0) '' '' s else s) = t"
    and "split_on CHR ''/'' t = [a, b]"
    and "split_ws a = [x]" and "int_of_str x = Inr n"
    and "split_ws b = [y]" and "int_of_str y = Inr d"
  shows "set_from_string f0 s = Inr (f0\<lparr>whole := 0, numerator := n, denominator := Some d\<rparr>)"
  unfolding set_from_string_def Let_def assms(1) separator_after_reset
  by (simp only: simp_thms if_True assms(2) assms(3))
     (simp add: assms(4,5,6,7) bind_result_def)

lemma set_from_string_two_parts_two_words:
  assumes "str_find CHR ''.'' s = - 1"
    and "(if My_Fraction.english_separator f0 \<noteq> '' ''
          then replace1 (My_Fraction.english_separator f0) '' '' s else s) = t"
    and "split_on CHR ''/'' t = [a, b]"
    and "split_ws a = [x1, x2]" and "int_of_str x1 = Inr w" and "int_of_str x2 = Inr n"
    and "split_ws b = [y]" and "int_of_str y = Inr d"
  shows "set_from_string f0 s = Inr (f0\<lparr>whole := w, numerator := n, denominator := Some d\<rparr>)"
  unfolding set_from_string_def Let_def assms(1) separator_after_reset
  by (simp only: simp_thms if_True assms(2) assms(3))
     (simp add: assms(4,5,6,7,8) bind_result_def)

lemma set_from_string_whole:
  assumes sep: "separator_ok (My_Fraction.english_separator f0)" and w: "0 \<le> w"
  shows "set_from_string f0 (digits_of w)
         = Inr (f0\<lparr>whole := w, numerator := 0, denominator := Some 1\<rparr>)"
proof -
  let ?s = "digits_of w"
  let ?sep = "My_Fraction.english_separator f0"
  note ch = digits_of_chars [OF w]
  from sep have s1: "?sep \<noteq> []" and s2: "\<not> is_digit (hd ?sep)"
    by (simp_all add: separator_ok_def)
  have dot: "str_find CHR ''.'' ?s = - 1" using ch(1) by (rule str_find_absent)
  have "hd ?sep \<notin> set ?s" using s2 by (rule ch(4))
  with s1 have "replace1 ?sep '' '' ?s = ?s" by (rule replace1_absent)
  then have rep: "(if ?sep \<noteq> '' '' then replace1 ?sep '' '' ?s else ?s) = ?s" by simp
  have sp: "split_on CHR ''/'' ?s = [?s]" using ch(2) by (rule split_on_absent)
  show ?thesis
    by (rule set_from_string_one_part [OF dot rep sp int_of_str_digits_of [OF w]])
qed

lemma set_from_string_fraction:
  assumes sep: "separator_ok (My_Fraction.english_separator f0)" and n: "0 \<le> n" and d: "0 \<le> d"
  shows "set_from_string f0 (digits_of n @ ''/'' @ digits_of d)
         = Inr (f0\<lparr>whole := 0, numerator := n, denominator := Some d\<rparr>)"
proof -
  let ?s = "digits_of n @ ''/'' @ digits_of d"
  let ?sep = "My_Fraction.english_separator f0"
  note cn = digits_of_chars [OF n] and cd = digits_of_chars [OF d]
  from sep have s1: "?sep \<noteq> []" and s2: "\<not> is_digit (hd ?sep)" and s3: "hd ?sep \<noteq> CHR ''/''"
    by (simp_all add: separator_ok_def)
  have "CHR ''.'' \<notin> set ?s" using cn(1) cd(1) by simp
  then have dot: "str_find CHR ''.'' ?s = - 1" by (rule str_find_absent)
  have "hd ?sep \<notin> set ?s" using cn(4) [OF s2] cd(4) [OF s2] s3 by simp
  with s1 have "replace1 ?sep '' '' ?s = ?s" by (rule replace1_absent)
  then have rep: "(if ?sep \<noteq> '' '' then replace1 ?sep '' '' ?s else ?s) = ?s" by simp
  have "split_on CHR ''/'' (digits_of n @ CHR ''/'' # digits_of d)
        = digits_of n # split_on CHR ''/'' (digits_of d)"
    using cn(2) by (rule split_on_first)
  also have "split_on CHR ''/'' (digits_of d) = [digits_of d]"
    using cd(2) by (rule split_on_absent)
  finally have sp: "split_on CHR ''/'' ?s = [digits_of n, digits_of d]" by simp
  have w1: "split_ws (digits_of n) = [digits_of n]"
    using digits_of_nonempty cn(3) by (rule split_ws_one)
  have w2: "split_ws (digits_of d) = [digits_of d]"
    using digits_of_nonempty cd(3) by (rule split_ws_one)
  show ?thesis
    by (rule set_from_string_two_parts_one_word [OF dot rep sp w1 int_of_str_digits_of [OF n]
          w2 int_of_str_digits_of [OF d]])
qed

lemma set_from_string_mixed:
  assumes sep: "separator_ok (My_Fraction.english_separator f0)"
    and w: "0 \<le> w" and n: "0 \<le> n" and d: "0 \<le> d"
  shows "set_from_string f0
           (digits_of w @ My_Fraction.english_separator f0 @ digits_of n @ ''/'' @ digits_of d)
         = Inr (f0\<lparr>whole := w, numerator := n, denominator := Some d\<rparr>)"
proof -
  let ?sep = "My_Fraction.english_separator f0"
  let ?s = "digits_of w @ ?sep @ digits_of n @ ''/'' @ digits_of d"
  let ?t = "digits_of w @ '' '' @ digits_of n @ ''/'' @ digits_of d"
  note cw = digits_of_chars [OF w] and cn = digits_of_chars [OF n] and cd = digits_of_chars [OF d]
  from sep have s1: "?sep \<noteq> []" and s2: "\<not> is_digit (hd ?sep)" and s4: "CHR ''.'' \<notin> set ?sep"
    by (simp_all add: separator_ok_def)
  have "CHR ''.'' \<notin> set ?s" using cw(1) cn(1) cd(1) s4 by simp
  then have dot: "str_find CHR ''.'' ?s = - 1" by (rule str_find_absent)
  have "hd ?sep \<notin> set (digits_of w)" using s2 by (rule cw(4))
  with s1 have "replace1 ?sep '' '' (digits_of w @ ?sep @ (digits_of n @ ''/'' @ digits_of d))
        = digits_of w @ '' '' @ (digits_of n @ ''/'' @ digits_of d)"
    by (rule replace1_first)
  then have rep: "(if ?sep \<noteq> '' '' then replace1 ?sep '' '' ?s else ?s) = ?t"
    by auto
  have "CHR ''/'' \<notin> set (digits_of w @ '' '' @ digits_of n)" using cw(2) cn(2) by simp
  then have "split_on CHR ''/'' ((digits_of w @ '' '' @ digits_of n) @ CHR ''/'' # digits_of d)
        = (digits_of w @ '' '' @ digits_of n) # split_on CHR ''/'' (digits_of d)"
    by (rule split_on_first)
  also have "split_on CHR ''/'' (digits_of d) = [digits_of d]"
    using cd(2) by (rule split_on_absent)
  finally have sp: "split_on CHR ''/'' ?t = [digits_of w @ '' '' @ digits_of n, digits_of d]"
    by simp
  have w1: "split_ws (digits_of w @ '' '' @ digits_of n) = [digits_of w, digits_of n]"
    using digits_of_nonempty cw(3) digits_of_nonempty cn(3) by (rule split_ws_two)
  have w2: "split_ws (digits_of d) = [digits_of d]"
    using digits_of_nonempty cd(3) by (rule split_ws_one)
  show ?thesis
    by (rule set_from_string_two_parts_two_words [OF dot rep sp w1 int_of_str_digits_of [OF w]
          int_of_str_digits_of [OF n] w2 int_of_str_digits_of [OF d]])
qed

subsection \<open>From increments to a string and back\<close>

lemma round_half_even_of_int: "round_half_even (of_int v) = v"
  by (simp add: round_half_even_def)

lemma str_d_nonneg: "0 \<le> n \<Longrightarrow> str_d n = digits_of n"
  by (simp add: str_d_def)

lemma string_to_increments_of_fraction:
  assumes f: "set_from_string (My_Fraction_init (Units.english_separator u) 0 0 None) s
              = Inr \<lparr>sign = 1, whole = w, numerator = n, denominator = Some d,
                     english_separator = Units.english_separator u\<rparr>"
    and n: "0 < n" and d: "d \<noteq> 0"
  shows "string_to_increments u s True
         = Inr (PyInt (round_half_even ((of_int w + of_int n / of_int d) * of_int (num_increments u))))"
  using n d
  by (simp add: string_to_increments_def string_to_float_def f bind_result_def
      length_to_increments_def num_times_def my_round_def)

lemma string_to_increments_of_whole:
  assumes f: "set_from_string (My_Fraction_init (Units.english_separator u) 0 0 None) s
              = Inr \<lparr>sign = 1, whole = w, numerator = 0, denominator = Some d,
                     english_separator = Units.english_separator u\<rparr>"
  shows "string_to_increments u s True = Inr (PyInt (w * num_increments u))"
  by (simp add: string_to_increments_def string_to_float_def f bind_result_def
      length_to_increments_def num_times_def my_round_def)

lemma sum_case_same: "(case r of Inl e \<Rightarrow> Inl e | Inr x \<Rightarrow> Inr x) = r"
  by (cases r) simp_all

lemma increments_to_string_english_int:
  assumes "\<not> metric u" and "increments_per_inch u = PyInt ipi"
    and r: "reduce (My_Fraction_init (Units.english_separator u) 0 v (Some ipi)) = Inr F"
    and ok: "numerator F = 0 \<or> (\<exists>d. denominator F = Some d \<and> d \<in> set allow_denoms)"
  shows "increments_to_string q u (PyInt v) False = to_string F"
  using assms
  by (auto simp: increments_to_string_def Let_def int_of_num_def bind_result_def sum_case_same)


lemma to_string_reduced:
  assumes "reduce F = Inr F" and "0 \<le> sign F" and "0 \<le> whole F" and "0 \<le> numerator F"
    and "denominator F = Some d" and "0 \<le> d"
  shows "to_string F =
     Inr (if numerator F \<noteq> 0
          then (if 0 < whole F then digits_of (whole F) @ My_Fraction.english_separator F else [])
               @ digits_of (numerator F) @ ''/'' @ digits_of d
          else if whole F = 0 then ''0'' else digits_of (whole F))"
  using assms by (simp add: to_string_def bind_result_def str_d_nonneg Let_def)

lemma round_trip_english:
  assumes en: "\<not> metric u" and ipi: "increments_per_inch u = PyInt ipi"
    and ni: "num_increments u = ipi"
    and sep: "separator_ok (Units.english_separator u)"
    and pos: "0 < ipi" and small: "ipi < 2 ^ 53" and v: "0 \<le> v"
    and allowed: "ipi div gcd v ipi \<in> set allow_denoms"
  shows "\<exists>s. increments_to_string q u (PyInt v) False = Inr s
           \<and> string_to_increments u s True = Inr (PyInt v)"
proof -
  let ?sep = "Units.english_separator u"
  let ?P = "My_Fraction_init ?sep 0 0 None"
  have sep0: "separator_ok (My_Fraction.english_separator ?P)"
    using sep by (simp add: My_Fraction_init_def)
  have shape: "?P\<lparr>whole := a, numerator := b, denominator := Some c\<rparr>
      = \<lparr>sign = 1, whole = a, numerator = b, denominator = Some c, english_separator = ?sep\<rparr>"
    for a b c by (simp add: My_Fraction_init_def)
  show ?thesis
  proof (cases "v = 0")
    case True
    let ?F = "My_Fraction_init ?sep 0 0 (Some ipi)"
    have r: "reduce ?F = Inr ?F" by (simp add: reduce_def My_Fraction_init_def)
    have "to_string ?F = Inr ''0''"
      by (simp add: to_string_def r bind_result_def) (simp add: My_Fraction_init_def)
    moreover have "increments_to_string q u (PyInt 0) False = to_string ?F"
      by (rule increments_to_string_english_int [OF en ipi r]) (simp add: My_Fraction_init_def)
    ultimately have out: "increments_to_string q u (PyInt v) False = Inr (digits_of 0)"
      using True by (simp add: digits_of.simps)
    have "set_from_string ?P (digits_of 0)
          = Inr (?P\<lparr>whole := 0, numerator := 0, denominator := Some 1\<rparr>)"
      using sep0 by (rule set_from_string_whole) simp
    then have "string_to_increments u (digits_of 0) True = Inr (PyInt (0 * num_increments u))"
      unfolding shape by (rule string_to_increments_of_whole)
    with out True show ?thesis by simp
  next
    case False
    with v have vpos: "0 < v" by simp
    define w where "w = v div ipi"
    define m where "m = v mod ipi"
    define g where "g = gcd m ipi"
    define n where "n = m div g"
    define d where "d = ipi div g"
    let ?G = "My_Fraction_init ?sep 0 v (Some ipi)"
    let ?F = "\<lparr>sign = 1, whole = w, numerator = n, denominator = Some d,
               english_separator = ?sep\<rparr>"
    have F0: "?G = \<lparr>sign = 1, whole = 0, numerator = v, denominator = Some ipi,
                     english_separator = ?sep\<rparr>"
      using v by (simp add: My_Fraction_init_def)
    have abs: "\<bar>ipi\<bar> < 2 ^ 53" using pos small by simp
    have ipi0: "ipi \<noteq> 0" using pos by simp
    have r: "reduce ?G = Inr ?F"
      using reduce_small [of ?G ipi] ipi0 abs False
      by (simp add: F0 w_def m_def g_def n_def d_def)
    have rr: "reduce ?F = Inr ?F"
      using reduce_twice_small [of ?G ipi ?F] ipi0 abs False r by (simp add: F0)
    have gpos: "0 < g" using pos by (simp add: g_def gcd_pos_int)
    have m0: "0 \<le> m" and mlt: "m < ipi" using pos by (simp_all add: m_def)
    have gm: "g dvd m" and gi: "g dvd ipi" by (simp_all add: g_def)
    have w0: "0 \<le> w" using v pos by (simp add: w_def pos_imp_zdiv_nonneg_iff)
    have n0: "0 \<le> n" using m0 gpos by (simp add: n_def pos_imp_zdiv_nonneg_iff)
    have dpos: "0 < d" using pos gpos gi by (simp add: d_def pos_imp_zdiv_pos_iff zdvd_imp_le)
    have gv: "g = gcd v ipi" using gcd_red_int [of v ipi] by (simp add: g_def m_def gcd.commute)
    have dallow: "d \<in> set allow_denoms" using allowed by (simp add: d_def gv)
    have out: "increments_to_string q u (PyInt v) False = to_string ?F"
      by (rule increments_to_string_english_int [OF en ipi r]) (simp add: dallow)
    have vsplit: "v = w * ipi + m" by (simp add: w_def m_def)
    show ?thesis
    proof (cases "n = 0")
      case True
      have "m = 0"
      proof -
        from gm obtain k where k: "m = g * k" by (rule dvdE)
        with gpos have "n = k" by (simp add: n_def)
        with True k show ?thesis by simp
      qed
      with vsplit have vw: "v = w * ipi" by simp
      with vpos pos have wpos: "0 < w" by (simp add: zero_less_mult_iff)
      have ts: "to_string ?F = Inr (digits_of w)"
        using to_string_reduced [OF rr, of d] True wpos dpos by simp
      have "set_from_string ?P (digits_of w)
            = Inr (?P\<lparr>whole := w, numerator := 0, denominator := Some 1\<rparr>)"
        using sep0 w0 by (rule set_from_string_whole)
      then have "string_to_increments u (digits_of w) True = Inr (PyInt (w * num_increments u))"
        unfolding shape by (rule string_to_increments_of_whole)
      with out ts vw ni show ?thesis by simp
    next
      case nz: False
      with n0 have npos: "0 < n" by simp
      have dne: "d \<noteq> 0" using dpos by simp
      have d0: "0 \<le> d" using dpos by simp
      have frac: "(of_int n :: rat) / of_int d = of_int m / of_int ipi"
      proof -
        from gm obtain k where k: "m = g * k" by (rule dvdE)
        from gi obtain l where l: "ipi = g * l" by (rule dvdE)
        have "n = k" and "d = l" using gpos k l by (simp_all add: n_def d_def)
        then show ?thesis using gpos by (simp add: k l)
      qed
      have val: "((of_int w :: rat) + of_int n / of_int d) * of_int ipi = of_int v"
        using pos by (simp add: frac vsplit field_simps)
      have rd: "\<And>s. set_from_string ?P s
            = Inr (?P\<lparr>whole := w, numerator := n, denominator := Some d\<rparr>)
          \<Longrightarrow> string_to_increments u s True = Inr (PyInt v)"
      proof -
        fix s
        assume "set_from_string ?P s
            = Inr (?P\<lparr>whole := w, numerator := n, denominator := Some d\<rparr>)"
        then have "string_to_increments u s True
          = Inr (PyInt (round_half_even ((of_int w + of_int n / of_int d) * of_int (num_increments u))))"
          unfolding shape using npos dne by (rule string_to_increments_of_fraction)
        then show "string_to_increments u s True = Inr (PyInt v)"
          by (simp add: ni val round_half_even_of_int)
      qed
      show ?thesis
      proof (cases "0 < w")
        case True
        have ts: "to_string ?F = Inr (digits_of w @ ?sep @ digits_of n @ ''/'' @ digits_of d)"
          using to_string_reduced [OF rr, of d] True nz n0 d0 by simp
        have "set_from_string ?P
                (digits_of w @ My_Fraction.english_separator ?P @ digits_of n @ ''/'' @ digits_of d)
              = Inr (?P\<lparr>whole := w, numerator := n, denominator := Some d\<rparr>)"
          using sep0 w0 n0 d0 by (rule set_from_string_mixed)
        then have "set_from_string ?P (digits_of w @ ?sep @ digits_of n @ ''/'' @ digits_of d)
              = Inr (?P\<lparr>whole := w, numerator := n, denominator := Some d\<rparr>)"
          by (simp add: My_Fraction_init_def)
        then have "string_to_increments u (digits_of w @ ?sep @ digits_of n @ ''/'' @ digits_of d) True
              = Inr (PyInt v)" by (rule rd)
        with out ts show ?thesis by simp
      next
        case False
        with w0 have wz: "w = 0" by simp
        have ts: "to_string ?F = Inr (digits_of n @ ''/'' @ digits_of d)"
          using to_string_reduced [OF rr, of d] wz nz n0 d0 by simp
        have "set_from_string ?P (digits_of n @ ''/'' @ digits_of d)
              = Inr (?P\<lparr>whole := 0, numerator := n, denominator := Some d\<rparr>)"
          using sep0 n0 d0 by (rule set_from_string_fraction)
        then have "set_from_string ?P (digits_of n @ ''/'' @ digits_of d)
              = Inr (?P\<lparr>whole := w, numerator := n, denominator := Some d\<rparr>)"
          by (simp only: wz)
        then have "string_to_increments u (digits_of n @ ''/'' @ digits_of d) True = Inr (PyInt v)"
          by (rule rd)
        with out ts show ?thesis by simp
      qed
    qed
  qed
qed

lemma Units_init_english:
  assumes "Units_init (Some s) False (Some k) tr = Inr (u, q0)"
  shows "\<not> metric u" and "increments_per_inch u = PyInt k" and "num_increments u = k"
    and "Units.english_separator u = s"
  using assms by (auto simp: Units_init_def)

text \<open>
  Claim C3, as amended. For an English unit system with 32, 64 or 96 increments per inch
  whose separator is not empty, holds no decimal point and starts with neither a digit nor
  a slash (\<open>separator_ok\<close>; the single space is such a separator), and for every whole
  number of increments \<open>v\<close> from 0 to 10000 whose fraction \<open>v / ipi\<close> reduces to a
  denominator among 1, 2, 4, 8, 16, 32 and 64: \<open>increments_to_string\<close> returns a string,
  and \<open>string_to_increments\<close> of that string is \<open>v\<close>. In this range every float of
  the computation is a binary fraction that a double holds exactly.
\<close>

theorem string_to_increments_increments_to_string:
  assumes ipi: "ipi \<in> {32, 64, 96}" and v: "0 \<le> v" "v \<le> 10000"
    and den: "ipi div gcd v ipi \<in> {1, 2, 4, 8, 16, 32, 64}"
    and sep: "separator_ok s"
    and u: "Units_init (Some s) False (Some ipi) tr = Inr (u, q0)"
  shows "\<exists>r. increments_to_string q u (PyInt v) False = Inr r
           \<and> string_to_increments u r True = Inr (PyInt v)"
proof -
  note U = Units_init_english [OF u]
  from ipi have pos: "0 < ipi" and small: "ipi < 2 ^ 53" by auto
  from den have "ipi div gcd v ipi \<in> set allow_denoms" by (simp add: allow_denoms_def)
  with U sep pos small v(1) show ?thesis
    by (intro round_trip_english) simp_all
qed

theorem string_to_increments_increments_to_string_witness:
  "separator_ok '' ''
   \<and> Units_init (Some '' '') False (Some 32) None
       = Inr (\<lparr>english_separator = '' '', metric = False, transl = None, num_increments = 32,
               increments_per_inch = PyInt 32\<rparr>, Decimal 1 (- 3))
   \<and> increments_to_string (Decimal 1 (- 3))
        \<lparr>english_separator = '' '', metric = False, transl = None, num_increments = 32,
         increments_per_inch = PyInt 32\<rparr> (PyInt 48) False = Inr ''1 1/2''
   \<and> string_to_increments
        \<lparr>english_separator = '' '', metric = False, transl = None, num_increments = 32,
         increments_per_inch = PyInt 32\<rparr> ''1 1/2'' True = Inr (PyInt 48)"
proof -
  let ?u = "\<lparr>english_separator = '' '', metric = False, transl = None, num_increments = 32,
             increments_per_inch = PyInt 32\<rparr>"
  have h1: "(32 :: int) \<in> {32, 64, 96}" by simp
  have h2: "(0 :: int) \<le> 48" "(48 :: int) \<le> 10000" by simp_all
  have h3: "(32 :: int) div gcd 48 32 \<in> {1, 2, 4, 8, 16, 32, 64}" by code_simp
  have h4: "separator_ok '' ''" by (simp add: separator_ok_def is_digit_def)
  have h5: "Units_init (Some '' '') False (Some 32) None = Inr (?u, Decimal 1 (- 3))"
    by (simp add: Units_init_def)
  have out: "increments_to_string (Decimal 1 (- 3)) ?u (PyInt 48) False = Inr ''1 1/2''"
    by code_simp
  from string_to_increments_increments_to_string [OF h1 h2 h3 h4 h5, of "Decimal 1 (- 3)"] out
  have "string_to_increments ?u ''1 1/2'' True = Inr (PyInt 48)" by simp
  with h4 h5 out show ?thesis by simp
qed

text \<open>
  Claim C3 as stated fails for other separators. With the separator \<open>.\<close>, 48 increments
  of 1/32 inch are written \<open>1.1/2\<close>; reading it back takes the decimal-point branch and
  \<^verbatim>\<open>int('1/2')\<close> raises ValueError. With the empty separator they are written
  \<open>11/2\<close>, which reads back as eleven halves: 176 increments.
\<close>

theorem string_to_increments_bad_separator_counterexample:
  "increments_to_string (Decimal 1 (- 3))
     \<lparr>english_separator = ''.'', metric = False, transl = None, num_increments = 32,
      increments_per_inch = PyInt 32\<rparr> (PyInt 48) False = Inr ''1.1/2''
   \<and> string_to_increments
        \<lparr>english_separator = ''.'', metric = False, transl = None, num_increments = 32,
         increments_per_inch = PyInt 32\<rparr> ''1.1/2'' True = Inl ValueError
   \<and> increments_to_string (Decimal 1 (- 3))
        \<lparr>english_separator = '''', metric = False, transl = None, num_increments = 32,
         increments_per_inch = PyInt 32\<rparr> (PyInt 48) False = Inr ''11/2''
   \<and> string_to_increments
        \<lparr>english_separator = '''', metric = False, transl = None, num_increments = 32,
         increments_per_inch = PyInt 32\<rparr> ''11/2'' True = Inr (PyInt 176)"
  by code_simp

section \<open>The class attribute \<open>quant\<close>\<close>

lemma increments_to_string_english_quant:
  "\<not> metric u \<Longrightarrow> increments_to_string q u v w = increments_to_string q' u v w"
  by (simp add: increments_to_string_def)

text \<open>
  Claim C8, as amended. \<^verbatim>\<open>Units.quant\<close> is an attribute of the class, and every
  construction of an instance assigns it: 0.01 for a metric instance, 0.001 for an English
  one. Let \<open>u\<close> be an instance, \<open>q1\<close> the attribute after its construction, and
  \<open>q2\<close> the attribute after the construction of any other instance. If \<open>u\<close> is
  English, or the other instance is metric, then \<open>increments_to_string\<close> of \<open>u\<close>
  gives the same result after the other construction as before it.
\<close>

theorem increments_to_string_after_other_construction:
  assumes "Units_init s1 m1 n1 t1 = Inr (u, q1)"
    and "Units_init s2 m2 n2 t2 = Inr (u2, q2)"
    and "\<not> m1 \<or> m2"
  shows "increments_to_string q2 u v w = increments_to_string q1 u v w"
proof (cases m1)
  case True
  with assms(3) have m2 by simp
  with True assms(1,2) have "q1 = Decimal 1 (- 2)" and "q2 = Decimal 1 (- 2)"
    by (auto simp: Units_init_def split: option.splits)
  then show ?thesis by simp
next
  case False
  with assms(1) have "\<not> metric u" by (auto simp: Units_init_def split: option.splits)
  then show ?thesis by (rule increments_to_string_english_quant)
qed

theorem increments_to_string_after_other_construction_witness:
  "Units_init (Some '' '') False None None
     = Inr (\<lparr>english_separator = '' '', metric = False, transl = None, num_increments = 32,
             increments_per_inch = PyInt 32\<rparr>, Decimal 1 (- 3))
   \<and> Units_init (Some '' '') True (Some 8) None
     = Inr (\<lparr>english_separator = '' '', metric = True, transl = None, num_increments = 8,
             increments_per_inch = PyFloat (1016 / 5)\<rparr>, Decimal 1 (- 2))
   \<and> increments_to_string (Decimal 1 (- 3))
        \<lparr>english_separator = '' '', metric = False, transl = None, num_increments = 32,
         increments_per_inch = PyInt 32\<rparr> (PyInt 48) False = Inr ''1 1/2''
   \<and> increments_to_string (Decimal 1 (- 2))
        \<lparr>english_separator = '' '', metric = False, transl = None, num_increments = 32,
         increments_per_inch = PyInt 32\<rparr> (PyInt 48) False = Inr ''1 1/2''"
proof -
  have h1: "Units_init (Some '' '') False None None
     = Inr (\<lparr>english_separator = '' '', metric = False, transl = None, num_increments = 32,
             increments_per_inch = PyInt 32\<rparr>, Decimal 1 (- 3))"
    by (simp add: Units_init_def)
  have h2: "Units_init (Some '' '') True (Some 8) None
     = Inr (\<lparr>english_separator = '' '', metric = True, transl = None, num_increments = 8,
             increments_per_inch = PyFloat (1016 / 5)\<rparr>, Decimal 1 (- 2))"
    by (simp add: Units_init_def mm_per_inch_def)
  have h3: "\<not> False \<or> True" by simp
  have before: "increments_to_string (Decimal 1 (- 3))
        \<lparr>english_separator = '' '', metric = False, transl = None, num_increments = 32,
         increments_per_inch = PyInt 32\<rparr> (PyInt 48) False = Inr ''1 1/2''"
    by code_simp
  from increments_to_string_after_other_construction [OF h1 h2 h3, of "PyInt 48" False] before
  have "increments_to_string (Decimal 1 (- 2))
        \<lparr>english_separator = '' '', metric = False, transl = None, num_increments = 32,
         increments_per_inch = PyInt 32\<rparr> (PyInt 48) False = Inr ''1 1/2''"
    by simp
  with h1 h2 before show ?thesis by (intro conjI)
qed

text \<open>
  Claim C8 as stated fails for a metric instance. A metric unit system with 8 increments
  per millimetre writes one increment as \<open>0.12\<close> (0.125 rounded to the 0.01 that its own
  construction set). After an English unit system is constructed the class attribute is
  0.001, and the same call on the same metric instance gives \<open>0.125\<close>.
\<close>

theorem increments_to_string_shared_quant_counterexample:
  "Units_init (Some '' '') True (Some 8) None
     = Inr (\<lparr>english_separator = '' '', metric = True, transl = None, num_increments = 8,
             increments_per_inch = PyFloat (1016 / 5)\<rparr>, Decimal 1 (- 2))
   \<and> increments_to_string (Decimal 1 (- 2))
        \<lparr>english_separator = '' '', metric = True, transl = None, num_increments = 8,
         increments_per_inch = PyFloat (1016 / 5)\<rparr> (PyInt 1) False = Inr ''0.12''
   \<and> Units_init (Some '' '') False None None
     = Inr (\<lparr>english_separator = '' '', metric = False, transl = None, num_increments = 32,
             increments_per_inch = PyInt 32\<rparr>, Decimal 1 (- 3))
   \<and> increments_to_string (Decimal 1 (- 3))
        \<lparr>english_separator = '' '', metric = True, transl = None, num_increments = 8,
         increments_per_inch = PyFloat (1016 / 5)\<rparr> (PyInt 1) False = Inr ''0.125''"
proof -
  have a: "Units_init (Some '' '') True (Some 8) None
     = Inr (\<lparr>english_separator = '' '', metric = True, transl = None, num_increments = 8,
             increments_per_inch = PyFloat (1016 / 5)\<rparr>, Decimal 1 (- 2))"
    by (simp add: Units_init_def mm_per_inch_def)
  have b: "increments_to_string (Decimal 1 (- 2))
        \<lparr>english_separator = '' '', metric = True, transl = None, num_increments = 8,
         increments_per_inch = PyFloat (1016 / 5)\<rparr> (PyInt 1) False = Inr ''0.12''"
    by code_simp
  have c: "Units_init (Some '' '') False None None
     = Inr (\<lparr>english_separator = '' '', metric = False, transl = None, num_increments = 32,
             increments_per_inch = PyInt 32\<rparr>, Decimal 1 (- 3))"
    by (simp add: Units_init_def)
  have d: "increments_to_string (Decimal 1 (- 3))
        \<lparr>english_separator = '' '', metric = True, transl = None, num_increments = 8,
         increments_per_inch = PyFloat (1016 / 5)\<rparr> (PyInt 1) False = Inr ''0.125''"
    by code_simp
  from a b c d show ?thesis by (intro conjI)
qed

section \<open>The rows of the report\<close>














section \<open>The report\<close>



















end
